theory Spec2Isabelle
  imports Main "HOL-Library.Sublist" "HOL-Library.Multiset"
begin

section \<open>Data model (fileStorage.d.ts, server.ts)\<close>

text \<open>
  A \<open>Date\<close> is represented by its \<open>getTime()\<close> value: milliseconds since the epoch,
  an integer. Every \<open>new Date()\<close> and every \<open>uuidv4()\<close> the source evaluates is an
  explicit argument of the function that evaluates it, so the model is a pure function of
  the values those calls returned.
\<close>

type_synonym time = int

record StoredDocumentVersion =
  vId :: string
  vContent :: string
  vCreatedAt :: time
  authorId :: string
  authorName :: string
  changeDescription :: "string option"

record StoredDocument =
  docId :: string
  title :: string
  content :: string
  ownerId :: string
  collaborators :: "string list"
  createdAt :: time
  updatedAt :: time
  versions :: "StoredDocumentVersion list"

text \<open>The authenticated principal: the decoded token \<open>{id, email, name}\<close>.\<close>

record Principal =
  userId :: string
  userEmail :: string
  userName :: string

text \<open>
  The server's state: the document files under \<open>data/documents\<close>, the two in-memory
  caches, the \<open>rooms\<close> map (each room's \<open>users\<close> map in insertion order), and the
  socket.io adapter's room membership (room name to socket ids), which \<open>socket.join\<close>
  extends and on which \<open>io.to(room)\<close> and \<open>socket.to(room)\<close> depend.
\<close>

record ServerState =
  documentFiles :: "string \<rightharpoonup> StoredDocument"
  documentsCache :: "string \<rightharpoonup> StoredDocument"
  usersCache :: "(string \<times> Principal) list"
  rooms :: "string \<rightharpoonup> (string \<times> Principal) list"
  adapterRooms :: "string \<Rightarrow> string set"

subsection \<open>Socket events and HTTP responses\<close>

datatype Target =
    ToSocket string
  | ToRoom string
  | ToRoomExcept string string

datatype Event =
    ErrorEvent string
  | UserJoined Principal "(string \<times> Principal) list"
  | RoomUsers "(string \<times> Principal) list"
  | DocumentUpdated string string time
  | DocumentRestored string string string time string time string

type_synonym Emit = "Target \<times> Event"

text \<open>
  Who receives an emit: \<open>socket.emit\<close> reaches the socket itself, \<open>io.to(room).emit\<close>
  every socket in the room, \<open>socket.to(room).emit\<close> every socket in the room except
  the sender (\<open>ToRoomExcept sender room\<close>).
\<close>

fun recipients :: "(string \<Rightarrow> string set) \<Rightarrow> Target \<Rightarrow> string set" where
  "recipients adapter (ToSocket s) = {s}"
| "recipients adapter (ToRoom r) = adapter r"
| "recipients adapter (ToRoomExcept sender r) = adapter r - {sender}"

definition receives :: "(string \<Rightarrow> string set) \<Rightarrow> Emit list \<Rightarrow> string \<Rightarrow> Event \<Rightarrow> bool" where
  "receives adapter emits s ev = (\<exists>e \<in> set emits. snd e = ev \<and> s \<in> recipients adapter (fst e))"

record VersionView =
  viewVersion :: StoredDocumentVersion
  isAutoSnapshot :: "bool option"

datatype Body =
    ErrorBody string
  | MessageBody string
  | DocumentBody StoredDocument
  | VersionsBody string "VersionView list"
  | VersionBody VersionView
  | RestoredBody string time string time string

type_synonym Response = "nat \<times> Body"

section \<open>Helper functions for version history (server.ts)\<close>

text \<open>\<open>String.prototype.includes\<close>: the pattern occurs as a contiguous substring.\<close>

fun str_includes :: "string \<Rightarrow> string \<Rightarrow> bool" where
  "str_includes [] p = (p = [])"
| "str_includes (c # cs) p = (prefix p (c # cs) \<or> str_includes cs p)"

definition createDocumentVersion ::
  "string \<Rightarrow> time \<Rightarrow> StoredDocument \<Rightarrow> string \<Rightarrow> string \<Rightarrow> string \<Rightarrow> string option
    \<Rightarrow> StoredDocumentVersion" where
  "createDocumentVersion uuid now document content' authorId' authorName' changeDescription' =
     \<lparr>vId = uuid, vContent = content', vCreatedAt = now, authorId = authorId',
      authorName = authorName', changeDescription = changeDescription'\<rparr>"

text \<open>
  \<open>versions.sort((a, b) => b.createdAt.getTime() - a.createdAt.getTime())\<close>:
  descending by \<open>createdAt\<close>; \<open>Array.prototype.sort\<close> is stable, and so is
  \<open>sort_key\<close>.
\<close>

definition sortNewestFirst :: "StoredDocumentVersion list \<Rightarrow> StoredDocumentVersion list" where
  "sortNewestFirst vs = sort_key (\<lambda>v. - vCreatedAt v) vs"

definition defaultMaxVersions :: nat where
  "defaultMaxVersions = 50"

definition addDocumentVersion ::
  "time \<Rightarrow> StoredDocument \<Rightarrow> StoredDocumentVersion \<Rightarrow> nat \<Rightarrow> StoredDocument" where
  "addDocumentVersion now document version maxVersions =
     (let pushed = versions document @ [version];
          sorted = sortNewestFirst pushed;
          limited = (if length sorted > maxVersions then take maxVersions sorted else sorted)
      in document\<lparr>versions := limited, updatedAt := now\<rparr>)"

text \<open>
  The predicate of \<open>document.versions?.find\<close> in \<open>createAutoSnapshot\<close>:
  \<open>v.changeDescription?.includes('Auto-snapshot') && v.authorId === authorId\<close>.
\<close>

definition autoSnapshotBy :: "string \<Rightarrow> StoredDocumentVersion \<Rightarrow> bool" where
  "autoSnapshotBy authorId' v =
     ((case changeDescription v of None \<Rightarrow> False
       | Some d \<Rightarrow> str_includes d ''Auto-snapshot'')
      \<and> authorId v = authorId')"

definition lastSnapshot :: "StoredDocument \<Rightarrow> string \<Rightarrow> StoredDocumentVersion option" where
  "lastSnapshot document authorId' = find (autoSnapshotBy authorId') (versions document)"

definition shouldCreateSnapshot :: "time \<Rightarrow> StoredDocument \<Rightarrow> string \<Rightarrow> bool" where
  "shouldCreateSnapshot now document authorId' =
     (case lastSnapshot document authorId' of
        None \<Rightarrow> True
      | Some s \<Rightarrow> now - vCreatedAt s > 30 * 60 * 1000)"

definition createAutoSnapshot ::
  "time \<Rightarrow> string \<Rightarrow> time \<Rightarrow> time \<Rightarrow> StoredDocument \<Rightarrow> string \<Rightarrow> string \<Rightarrow> StoredDocument" where
  "createAutoSnapshot now uuid created committed document authorId' authorName' =
     (if shouldCreateSnapshot now document authorId'
      then addDocumentVersion committed document
             (createDocumentVersion uuid created document (content document)
                authorId' authorName' (Some ''Auto-snapshot''))
             defaultMaxVersions
      else document)"

section \<open>File storage (fileStorage.js)\<close>

text \<open>
  \<open>loadDocument\<close> reads \<open>data/documents/<id>.json\<close> and answers \<open>null\<close> when the
  file is missing; \<open>saveDocument\<close> writes the document under its own \<open>id\<close> with
  \<open>updatedAt\<close> replaced by the time of the write. Serialising to JSON and back keeps
  every field that is modelled.
\<close>

definition loadDocument :: "ServerState \<Rightarrow> string \<Rightarrow> StoredDocument option" where
  "loadDocument st documentId = documentFiles st documentId"

definition saveDocument :: "time \<Rightarrow> ServerState \<Rightarrow> StoredDocument \<Rightarrow> ServerState" where
  "saveDocument now st document =
     st\<lparr>documentFiles := (documentFiles st)(docId document \<mapsto> document\<lparr>updatedAt := now\<rparr>)\<rparr>"

section \<open>HTTP handlers (server.ts)\<close>

text \<open>The access check written inline in the handlers.\<close>

definition accessDenied :: "StoredDocument \<Rightarrow> Principal \<Rightarrow> bool" where
  "accessDenied document user =
     (ownerId document \<noteq> userId user \<and> userId user \<notin> set (collaborators document))"

text \<open>\<open>GET /api/documents/:id\<close>; it writes nothing, so it returns the response only.\<close>

definition getDocument :: "ServerState \<Rightarrow> Principal \<Rightarrow> string \<Rightarrow> Response" where
  "getDocument st user id' =
     (case documentsCache st id' of
        None \<Rightarrow> (404, ErrorBody ''Document not found'')
      | Some document \<Rightarrow>
          if accessDenied document user then (403, ErrorBody ''Access denied'')
          else (200, DocumentBody document))"

text \<open>\<open>POST /api/documents/:id/collaborators\<close>.\<close>

definition addCollaborator ::
  "time \<Rightarrow> time \<Rightarrow> ServerState \<Rightarrow> Principal \<Rightarrow> string \<Rightarrow> string \<Rightarrow> ServerState \<times> Response" where
  "addCollaborator updated saved st user id' email =
     (case loadDocument st id' of
        None \<Rightarrow> (st, (404, ErrorBody ''Document not found''))
      | Some document \<Rightarrow>
          if ownerId document \<noteq> userId user
          then (st, (403, ErrorBody ''Only document owner can add collaborators''))
          else (case find (\<lambda>u. userEmail u = email) (map snd (usersCache st)) of
                  None \<Rightarrow> (st, (404, ErrorBody ''User not found''))
                | Some collaborator \<Rightarrow>
                    if userId collaborator = ownerId document
                    then (st, (400, ErrorBody ''Cannot add owner as collaborator''))
                    else if userId collaborator \<notin> set (collaborators document)
                    then (let document' = document\<lparr>collaborators :=
                                            collaborators document @ [userId collaborator],
                                          updatedAt := updated\<rparr>;
                              st1 = saveDocument saved st document'
                          in (st1\<lparr>documentsCache := (documentsCache st1)(id' \<mapsto> document')\<rparr>,
                              (200, MessageBody ''Collaborator added successfully'')))
                    else (st, (200, MessageBody ''Collaborator added successfully''))))"

text \<open>\<open>DELETE /api/documents/:id/collaborators/:collaboratorId\<close>.\<close>

definition removeCollaborator ::
  "time \<Rightarrow> time \<Rightarrow> ServerState \<Rightarrow> Principal \<Rightarrow> string \<Rightarrow> string \<Rightarrow> ServerState \<times> Response" where
  "removeCollaborator updated saved st user id' collaboratorId =
     (case loadDocument st id' of
        None \<Rightarrow> (st, (404, ErrorBody ''Document not found''))
      | Some document \<Rightarrow>
          if ownerId document \<noteq> userId user
          then (st, (403, ErrorBody ''Only document owner can remove collaborators''))
          else if collaboratorId \<notin> set (collaborators document)
          then (st, (404, ErrorBody ''Collaborator not found''))
          else (let document' = document\<lparr>collaborators :=
                                  remove1 collaboratorId (collaborators document),
                                updatedAt := updated\<rparr>;
                    st1 = saveDocument saved st document'
                in (st1\<lparr>documentsCache := (documentsCache st1)(id' \<mapsto> document')\<rparr>,
                    (200, MessageBody ''Collaborator removed successfully''))))"

text \<open>
  The version read endpoints. Both routes are registered without the
  \<open>authenticateToken\<close> middleware and never read \<open>req.user\<close>, so the caller is not an
  argument. \<open>isAutoSnapshot\<close> is \<open>changeDescription?.includes('Auto snapshot')\<close>:
  undefined when the description is.
\<close>

definition versionView :: "StoredDocumentVersion \<Rightarrow> VersionView" where
  "versionView v =
     \<lparr>viewVersion = v,
      isAutoSnapshot = map_option (\<lambda>d. str_includes d ''Auto snapshot'') (changeDescription v)\<rparr>"

definition getVersions :: "ServerState \<Rightarrow> string \<Rightarrow> Response" where
  "getVersions st id' =
     (case loadDocument st id' of
        None \<Rightarrow> (404, ErrorBody ''Document not found'')
      | Some document \<Rightarrow> (200, VersionsBody id' (map versionView (versions document))))"

definition getVersion :: "ServerState \<Rightarrow> string \<Rightarrow> string \<Rightarrow> Response" where
  "getVersion st id' versionId =
     (case loadDocument st id' of
        None \<Rightarrow> (404, ErrorBody ''Document not found'')
      | Some document \<Rightarrow>
          (case find (\<lambda>v. vId v = versionId) (versions document) of
             None \<Rightarrow> (404, ErrorBody ''Version not found'')
           | Some version \<Rightarrow> (200, VersionBody (versionView version))))"

text \<open>
  \<open>POST /api/documents/:id/restore/:versionId\<close>. The environment holds what the
  handler's \<open>uuidv4()\<close>, its six \<open>new Date()\<close> and \<open>toLocaleString\<close> return.
\<close>

record RestoreEnv =
  restoreId :: string
  restoreCreated :: time
  restoreCommitted :: time
  restoreUpdated :: time
  restoreSaved :: time
  restoreEmitted :: time
  restoreAnswered :: time
  toLocaleString :: "time \<Rightarrow> string"

definition restoreVersion ::
  "RestoreEnv \<Rightarrow> ServerState \<Rightarrow> Principal \<Rightarrow> string \<Rightarrow> string
    \<Rightarrow> ServerState \<times> Emit list \<times> Response" where
  "restoreVersion env st user id' versionId =
     (case loadDocument st id' of
        None \<Rightarrow> (st, [], (404, ErrorBody ''Document not found''))
      | Some document \<Rightarrow>
          if accessDenied document user then (st, [], (403, ErrorBody ''Access denied''))
          else (case find (\<lambda>v. vId v = versionId) (versions document) of
                  None \<Rightarrow> (st, [], (404, ErrorBody ''Version not found''))
                | Some version \<Rightarrow>
                    (let currentVersion =
                           createDocumentVersion (restoreId env) (restoreCreated env) document
                             (content document) (userId user) (userName user)
                             (Some (''Auto-save before restoring to version from ''
                                    @ toLocaleString env (vCreatedAt version)));
                         document1 = addDocumentVersion (restoreCommitted env) document
                                       currentVersion defaultMaxVersions;
                         document2 = document1\<lparr>content := vContent version,
                                               updatedAt := restoreUpdated env\<rparr>;
                         st1 = saveDocument (restoreSaved env) st document2;
                         st2 = st1\<lparr>documentsCache := (documentsCache st1)(id' \<mapsto> document2)\<rparr>
                     in (st2,
                         [(ToRoom (''document:'' @ id'),
                           DocumentRestored id' (vContent version) (userName user)
                             (restoreEmitted env) (vId version) (vCreatedAt version)
                             (authorName version))],
                         (200, RestoredBody ''Document restored successfully''
                                 (restoreAnswered env) (vId version) (vCreatedAt version)
                                 (authorName version))))))"

section \<open>Socket handlers\<close>

text \<open>\<open>Map.prototype.set\<close> on the room's users: replace in place or append.\<close>

fun mapSet :: "(string \<times> Principal) list \<Rightarrow> string \<Rightarrow> Principal \<Rightarrow> (string \<times> Principal) list" where
  "mapSet [] k v = [(k, v)]"
| "mapSet (p # ps) k v = (if fst p = k then (k, v) # ps else p # mapSet ps k v)"

text \<open>\<open>join-document\<close>, for the socket \<open>sid\<close> whose \<open>socket.data.user\<close> is \<open>user\<close>.\<close>

definition joinDocument ::
  "ServerState \<Rightarrow> string \<Rightarrow> Principal \<Rightarrow> string \<Rightarrow> ServerState \<times> Emit list" where
  "joinDocument st sid user documentId =
     (case loadDocument st documentId of
        None \<Rightarrow> (st, [(ToSocket sid, ErrorEvent ''Document not found'')])
      | Some document \<Rightarrow>
          if accessDenied document user
          then (st, [(ToSocket sid, ErrorEvent ''Access denied'')])
          else (let adapter' = (adapterRooms st)
                                 (documentId := insert sid (adapterRooms st documentId));
                    room = (case rooms st documentId of None \<Rightarrow> [] | Some r \<Rightarrow> r);
                    room' = mapSet room sid user
                in (st\<lparr>rooms := (rooms st)(documentId \<mapsto> room'), adapterRooms := adapter'\<rparr>,
                    [(ToRoomExcept sid documentId, UserJoined user room'),
                     (ToSocket sid, RoomUsers room')])))"

text \<open>
  \<open>document-change\<close>. The environment holds what the two \<open>uuidv4()\<close> and the eight
  \<open>new Date()\<close> on the handler's path return, one field for each call site.
\<close>

record ChangeEnv =
  manualId :: string
  manualCreated :: time
  manualCommitted :: time
  snapNow :: time
  snapId :: string
  snapCreated :: time
  snapCommitted :: time
  changeUpdated :: time
  changeSaved :: time
  changeEmitted :: time

text \<open>
  The document as the handler has it when it builds \<open>updatedDocument\<close>: the loaded
  document after the guarded version commit and snapshot check.
\<close>

definition versionedDocument ::
  "ChangeEnv \<Rightarrow> StoredDocument \<Rightarrow> Principal \<Rightarrow> string \<Rightarrow> StoredDocument" where
  "versionedDocument env document user content' =
     (if content' \<noteq> content document
      then (let version = createDocumentVersion (manualId env) (manualCreated env) document
                            content' (userId user) (userName user) (Some ''Manual save'');
                document1 = addDocumentVersion (manualCommitted env) document version
                              defaultMaxVersions
            in createAutoSnapshot (snapNow env) (snapId env) (snapCreated env)
                 (snapCommitted env) document1 (userId user) (userName user))
      else document)"

text \<open>The handler of server.ts: the broadcast is \<open>io.to(documentId).emit\<close>.\<close>

definition documentChange ::
  "ChangeEnv \<Rightarrow> ServerState \<Rightarrow> string \<Rightarrow> Principal \<Rightarrow> string \<Rightarrow> string
    \<Rightarrow> ServerState \<times> Emit list" where
  "documentChange env st sid user documentId content' =
     (case loadDocument st documentId of
        None \<Rightarrow> (st, [])
      | Some document \<Rightarrow>
          (let updatedDocument = (versionedDocument env document user content')
                                   \<lparr>content := content', updatedAt := changeUpdated env\<rparr>
           in (saveDocument (changeSaved env) st updatedDocument,
               [(ToRoom documentId,
                 DocumentUpdated content' (userName user) (changeEmitted env))])))"

text \<open>
  The handler of the compiled server.js: the same body, but the broadcast is
  \<open>socket.to(documentId).emit\<close>.
\<close>

definition documentChangeCompiled ::
  "ChangeEnv \<Rightarrow> ServerState \<Rightarrow> string \<Rightarrow> Principal \<Rightarrow> string \<Rightarrow> string
    \<Rightarrow> ServerState \<times> Emit list" where
  "documentChangeCompiled env st sid user documentId content' =
     (case loadDocument st documentId of
        None \<Rightarrow> (st, [])
      | Some document \<Rightarrow>
          (let updatedDocument = (versionedDocument env document user content')
                                   \<lparr>content := content', updatedAt := changeUpdated env\<rparr>
           in (saveDocument (changeSaved env) st updatedDocument,
               [(ToRoomExcept sid documentId,
                 DocumentUpdated content' (userName user) (changeEmitted env))])))"

section \<open>Vocabulary of the ledger properties\<close>

definition newestFirst :: "StoredDocumentVersion list \<Rightarrow> bool" where
  "newestFirst vs = sorted_wrt (\<lambda>a b. vCreatedAt b \<le> vCreatedAt a) vs"

text \<open>
  \<open>kept\<close> holds the \<open>k\<close> most recent entries of \<open>pool\<close>: it is a part of the pool,
  as long as the cap and the pool allow, and nothing left out is newer than anything kept.
\<close>

definition mostRecentOf ::
  "nat \<Rightarrow> StoredDocumentVersion list \<Rightarrow> StoredDocumentVersion list \<Rightarrow> bool" where
  "mostRecentOf k kept pool =
     (mset kept \<subseteq># mset pool \<and> length kept = min k (length pool) \<and>
      (\<forall>d \<in># mset pool - mset kept. \<forall>r \<in> set kept. vCreatedAt d \<le> vCreatedAt r))"

text \<open>
  A sequence of commits on one document, each with the time its
  \<open>document.updatedAt = new Date()\<close> reads.
\<close>

fun commitAll ::
  "StoredDocument \<Rightarrow> (time \<times> StoredDocumentVersion) list \<Rightarrow> nat \<Rightarrow> StoredDocument" where
  "commitAll document [] maxVersions = document"
| "commitAll document (c # cs) maxVersions =
     commitAll (addDocumentVersion (fst c) document (snd c) maxVersions) cs maxVersions"

text \<open>The same with the entries left out named: the invariant of a run of commits.\<close>

definition topOf ::
  "nat \<Rightarrow> StoredDocumentVersion list \<Rightarrow> StoredDocumentVersion list
    \<Rightarrow> StoredDocumentVersion list \<Rightarrow> bool" where
  "topOf k kept dropped pool =
     (mset pool = mset kept + mset dropped \<and> length kept = min k (length pool) \<and>
      (\<forall>d \<in> set dropped. \<forall>r \<in> set kept. vCreatedAt d \<le> vCreatedAt r))"

section \<open>Vocabulary of the handler properties\<close>

text \<open>The three versions the handlers build, named after the source's local constants.\<close>

definition manualSave ::
  "ChangeEnv \<Rightarrow> StoredDocument \<Rightarrow> Principal \<Rightarrow> string \<Rightarrow> StoredDocumentVersion" where
  "manualSave env document user content' =
     createDocumentVersion (manualId env) (manualCreated env) document content'
       (userId user) (userName user) (Some ''Manual save'')"


definition currentVersion ::
  "RestoreEnv \<Rightarrow> StoredDocument \<Rightarrow> Principal \<Rightarrow> StoredDocumentVersion
    \<Rightarrow> StoredDocumentVersion" where
  "currentVersion env document user version =
     createDocumentVersion (restoreId env) (restoreCreated env) document (content document)
       (userId user) (userName user)
       (Some (''Auto-save before restoring to version from ''
              @ toLocaleString env (vCreatedAt version)))"

text \<open>
  The document as \<open>createAutoSnapshot\<close> receives it in a content-changing
  \<open>document-change\<close>: after the commit of the manual save.
\<close>

definition afterManualSave ::
  "ChangeEnv \<Rightarrow> StoredDocument \<Rightarrow> Principal \<Rightarrow> string \<Rightarrow> StoredDocument" where
  "afterManualSave env document user content' =
     addDocumentVersion (manualCommitted env) document (manualSave env document user content')
       defaultMaxVersions"






section \<open>Example data\<close>

text \<open>A document whose ledger is full: fifty manual saves, one millisecond apart.\<close>

definition numbered :: "nat \<Rightarrow> StoredDocumentVersion" where
  "numbered i = \<lparr>vId = replicate (Suc i) CHR ''v'', vContent = ''<p>draft</p>'',
      vCreatedAt = 1000 + int i, authorId = ''A'', authorName = ''Alice'',
      changeDescription = Some ''Manual save''\<rparr>"

definition fullDocument :: StoredDocument where
  "fullDocument = \<lparr>docId = ''d1'', title = ''Notes'', content = ''<p>hi</p>'', ownerId = ''A'',
      collaborators = [''B''], createdAt = 900, updatedAt = 1049,
      versions = map numbered (rev [0..<50])\<rparr>"

text \<open>A snapshot as old as the oldest entry of the full ledger, and one newer than all.\<close>

definition tiedSnapshot :: StoredDocumentVersion where
  "tiedSnapshot = \<lparr>vId = ''s'', vContent = ''<p>hi</p>'', vCreatedAt = 1000, authorId = ''A'',
      authorName = ''Alice'', changeDescription = Some ''Auto-snapshot''\<rparr>"

definition freshSnapshot :: StoredDocumentVersion where
  "freshSnapshot = \<lparr>vId = ''s'', vContent = ''<p>hi</p>'', vCreatedAt = 5000, authorId = ''A'',
      authorName = ''Alice'', changeDescription = Some ''Auto-snapshot''\<rparr>"

definition exampleCommits :: "(time \<times> StoredDocumentVersion) list" where
  "exampleCommits = [(2000, freshSnapshot), (2001, tiedSnapshot)]"

text \<open>
  The scenario of the specification: Alice owns the document ``Notes'', Bob is a
  collaborator, Mallory is neither; Alice and Bob are connected and in the room. The
  document is on disk and not in the cache.
\<close>

definition alice :: Principal where
  "alice = \<lparr>userId = ''A'', userEmail = ''alice@example.com'', userName = ''Alice''\<rparr>"

definition bob :: Principal where
  "bob = \<lparr>userId = ''B'', userEmail = ''bob@example.com'', userName = ''Bob''\<rparr>"

definition mallory :: Principal where
  "mallory = \<lparr>userId = ''M'', userEmail = ''mallory@example.com'', userName = ''Mallory''\<rparr>"

definition initialVersion :: StoredDocumentVersion where
  "initialVersion = \<lparr>vId = ''v0'', vContent = ''<p>hi</p>'', vCreatedAt = 1000, authorId = ''A'',
      authorName = ''Alice'', changeDescription = Some ''Initial version''\<rparr>"

definition notesDoc :: StoredDocument where
  "notesDoc = \<lparr>docId = ''d1'', title = ''Notes'', content = ''<p>hi</p>'', ownerId = ''A'',
      collaborators = [''B''], createdAt = 1000, updatedAt = 1000,
      versions = [initialVersion]\<rparr>"

definition exampleState :: ServerState where
  "exampleState =
     \<lparr>documentFiles = [''d1'' \<mapsto> notesDoc],
      documentsCache = Map.empty,
      usersCache = [(''A'', alice), (''B'', bob), (''M'', mallory)],
      rooms = [''d1'' \<mapsto> [(''sA'', alice), (''sB'', bob)]],
      adapterRooms = (\<lambda>r. if r = ''d1'' then {''sA'', ''sB''} else {})\<rparr>"

definition cachedState :: ServerState where
  "cachedState = exampleState\<lparr>documentsCache := [''d1'' \<mapsto> notesDoc]\<rparr>"

text \<open>What the clock and \<open>uuidv4\<close> return during one \<open>document-change\<close>.\<close>

definition changeEnv :: ChangeEnv where
  "changeEnv = \<lparr>manualId = ''m1'', manualCreated = 5000, manualCommitted = 5000,
      snapNow = 5000, snapId = ''s1'', snapCreated = 5001, snapCommitted = 5001,
      changeUpdated = 5001, changeSaved = 5002, changeEmitted = 5002\<rparr>"

text \<open>The version entries of a \<open>GET /api/documents/:id/versions\<close> response.\<close>

fun viewsOf :: "Response \<Rightarrow> VersionView list" where
  "viewsOf (status, VersionsBody documentId views) = views"
| "viewsOf (status, body) = []"




definition restoreEnv :: RestoreEnv where
  "restoreEnv = \<lparr>restoreId = ''r1'', restoreCreated = 6000, restoreCommitted = 6000,
      restoreUpdated = 6000, restoreSaved = 6001, restoreEmitted = 6001,
      restoreAnswered = 6001, toLocaleString = (\<lambda>t. ''then'')\<rparr>"

text \<open>``Notes'' after an edit, for Bob to restore to its initial version.\<close>

definition earlierSave :: StoredDocumentVersion where
  "earlierSave = \<lparr>vId = ''m0'', vContent = ''<p>hello</p>'', vCreatedAt = 3000, authorId = ''A'',
      authorName = ''Alice'', changeDescription = Some ''Manual save''\<rparr>"

definition editedDoc :: StoredDocument where
  "editedDoc = notesDoc\<lparr>content := ''<p>hello</p>'', versions := [earlierSave, initialVersion]\<rparr>"

definition editedState :: ServerState where
  "editedState = exampleState\<lparr>documentFiles := [''d1'' \<mapsto> editedDoc]\<rparr>"

text \<open>A second edit ten minutes after the first, and one more than thirty minutes after.\<close>

definition soonEnv :: ChangeEnv where
  "soonEnv = \<lparr>manualId = ''m2'', manualCreated = 605000, manualCommitted = 605000,
      snapNow = 605000, snapId = ''s2'', snapCreated = 605001, snapCommitted = 605001,
      changeUpdated = 605001, changeSaved = 605002, changeEmitted = 605002\<rparr>"

definition lateEnv :: ChangeEnv where
  "lateEnv = \<lparr>manualId = ''m3'', manualCreated = 1805002, manualCommitted = 1805002,
      snapNow = 1805002, snapId = ''s3'', snapCreated = 1805003, snapCommitted = 1805003,
      changeUpdated = 1805003, changeSaved = 1805004, changeEmitted = 1805004\<rparr>"

text \<open>
  The full document on disk, and a restore whose version is stamped with the time of the
  oldest entry of the ledger.
\<close>

definition fullState :: ServerState where
  "fullState = exampleState\<lparr>documentFiles := [''d1'' \<mapsto> fullDocument]\<rparr>"

definition staleRestoreEnv :: RestoreEnv where
  "staleRestoreEnv = \<lparr>restoreId = ''r1'', restoreCreated = 1000, restoreCommitted = 1000,
      restoreUpdated = 1000, restoreSaved = 1001, restoreEmitted = 1001,
      restoreAnswered = 1001, toLocaleString = (\<lambda>t. ''then'')\<rparr>"




section \<open>Properties\<close>

subsection \<open>Sorting and truncating the ledger\<close>

lemma newestFirst_sortNewestFirst: "newestFirst (sortNewestFirst vs)"
proof -
  have "sorted (map (\<lambda>v. - vCreatedAt v) (sortNewestFirst vs))"
    unfolding sortNewestFirst_def by (rule sorted_sort_key)
  then show ?thesis
    unfolding newestFirst_def by (simp add: sorted_map)
qed

lemma newestFirst_take: "newestFirst vs \<Longrightarrow> newestFirst (take k vs)"
  unfolding newestFirst_def by (rule sorted_wrt_take)

lemma newestFirst_split:
  assumes "newestFirst vs" "r \<in> set (take k vs)" "d \<in> set (drop k vs)"
  shows "vCreatedAt d \<le> vCreatedAt r"
proof -
  have "sorted_wrt (\<lambda>a b. vCreatedAt b \<le> vCreatedAt a) (take k vs @ drop k vs)"
    using assms(1) unfolding newestFirst_def by simp
  then show ?thesis
    using assms(2,3) unfolding sorted_wrt_append by blast
qed

lemma mset_sortNewestFirst: "mset (sortNewestFirst vs) = mset vs"
  by (simp add: sortNewestFirst_def)

lemma set_sortNewestFirst: "set (sortNewestFirst vs) = set vs"
  by (simp add: sortNewestFirst_def)

lemma length_sortNewestFirst: "length (sortNewestFirst vs) = length vs"
  by (simp add: sortNewestFirst_def)

lemma versions_addDocumentVersion:
  "versions (addDocumentVersion now d v k) = take k (sortNewestFirst (versions d @ [v]))"
  by (simp add: addDocumentVersion_def Let_def)

lemma content_addDocumentVersion: "content (addDocumentVersion now d v k) = content d"
  by (simp add: addDocumentVersion_def Let_def)

lemma docId_addDocumentVersion: "docId (addDocumentVersion now d v k) = docId d"
  by (simp add: addDocumentVersion_def Let_def)

lemma all_filter: "\<forall>r \<in> set ts. P r \<Longrightarrow> length (filter P ts) = length ts"
  by (induction ts) auto




text \<open>
  An entry stays in the ledger through sort and truncation when at most \<open>k\<close> entries,
  itself included, are at least as new as it is.
\<close>

lemma retained_if_few_newer:
  assumes "x \<in> set zs"
    and "length (filter (\<lambda>y. vCreatedAt x \<le> vCreatedAt y) zs) \<le> k"
  shows "x \<in> set (take k (sortNewestFirst zs))"
proof (rule ccontr)
  let ?ys = "sortNewestFirst zs"
  let ?P = "\<lambda>y. vCreatedAt x \<le> vCreatedAt y"
  assume out: "x \<notin> set (take k ?ys)"
  have "x \<in> set ?ys" using assms(1) by (simp add: set_sortNewestFirst)
  then have "x \<in> set (take k ?ys) \<union> set (drop k ?ys)"
    by (metis append_take_drop_id set_append)
  with out have indrop: "x \<in> set (drop k ?ys)" by blast
  then have len: "length (take k ?ys) = k" by (auto simp: min_def)
  have "\<forall>r \<in> set (take k ?ys). ?P r"
    using newestFirst_split[OF newestFirst_sortNewestFirst _ indrop] by blast
  then have frontlen: "length (filter ?P (take k ?ys)) = k"
    using all_filter[of "take k ?ys" ?P] len by simp
  have "x \<in> set (filter ?P (drop k ?ys))" using indrop by simp
  then have rearlen: "0 < length (filter ?P (drop k ?ys))" by (rule length_pos_if_in_set)
  have "filter ?P ?ys = filter ?P (take k ?ys) @ filter ?P (drop k ?ys)"
    by (metis append_take_drop_id filter_append)
  then have "k < length (filter ?P ?ys)" using frontlen rearlen by simp
  moreover have "length (filter ?P ?ys) = length (filter ?P zs)"
    by (metis mset_sortNewestFirst mset_filter size_mset)
  ultimately show False using assms(2) by simp
qed

lemma newestFirst_Cons:
  "newestFirst (x # xs) = ((\<forall>y \<in> set xs. vCreatedAt y \<le> vCreatedAt x) \<and> newestFirst xs)"
  by (simp add: newestFirst_def)

lemma newestFirst_append:
  "newestFirst (as @ bs) =
     (newestFirst as \<and> newestFirst bs \<and>
      (\<forall>a \<in> set as. \<forall>b \<in> set bs. vCreatedAt b \<le> vCreatedAt a))"
  unfolding newestFirst_def sorted_wrt_append by blast

lemma stable_sortNewestFirst:
  "filter (\<lambda>y. vCreatedAt y = t) (sortNewestFirst zs) = filter (\<lambda>y. vCreatedAt y = t) zs"
proof -
  have "filter (\<lambda>y. - vCreatedAt y = - t) (sort_key (\<lambda>v. - vCreatedAt v) zs) =
        filter (\<lambda>y. - vCreatedAt y = - t) zs"
    by (rule sort_key_stable)
  then show ?thesis by (simp add: sortNewestFirst_def)
qed

text \<open>
  A new entry is cut off by sort and truncation when \<open>k\<close> or more of the entries
  already there are at least as new as it is: the stable sort puts it after them.
\<close>

lemma discarded_if_many_newer:
  assumes fresh: "v \<notin> set xs"
    and many: "k \<le> length (filter (\<lambda>y. vCreatedAt v \<le> vCreatedAt y) xs)"
  shows "v \<notin> set (take k (sortNewestFirst (xs @ [v])))"
proof
  let ?ys = "sortNewestFirst (xs @ [v])"
  let ?P = "\<lambda>y. vCreatedAt v \<le> vCreatedAt y"
  let ?E = "\<lambda>y. vCreatedAt y = vCreatedAt v"
  assume kept: "v \<in> set (take k ?ys)"
  have "v \<in> set ?ys" by (simp add: set_sortNewestFirst)
  then obtain as bs where split: "?ys = as @ v # bs" and notin_as: "v \<notin> set as"
    by (meson split_list_first)
  have "mset ?ys = mset xs + {#v#}" by (simp add: mset_sortNewestFirst)
  then have "mset as + mset bs = mset xs" using split by simp
  then have "set as \<union> set bs = set xs" by (metis set_mset_mset set_mset_union)
  with fresh have notin_bs: "v \<notin> set bs" by blast
  have "filter ?E ?ys = filter ?E (xs @ [v])" by (rule stable_sortNewestFirst)
  then have eq: "filter ?E as @ v # filter ?E bs = filter ?E xs @ [v]"
    using split by simp
  have noties: "filter ?E bs = []"
  proof (rule ccontr)
    assume ne: "filter ?E bs \<noteq> []"
    then have "last (filter ?E as @ v # filter ?E bs) = last (filter ?E bs)" by simp
    moreover have "last (filter ?E xs @ [v]) = v" by simp
    ultimately have "last (filter ?E bs) = v" using eq by simp
    moreover have "last (filter ?E bs) \<in> set (filter ?E bs)" using ne by (rule last_in_set)
    ultimately show False using notin_bs by simp
  qed
  have sorted: "newestFirst (as @ v # bs)"
    using newestFirst_sortNewestFirst[of "xs @ [v]"] split by simp
  have older: "\<forall>b \<in> set bs. vCreatedAt b < vCreatedAt v"
  proof
    fix b assume b: "b \<in> set bs"
    from sorted have "vCreatedAt b \<le> vCreatedAt v"
      using b by (auto simp: newestFirst_append newestFirst_Cons)
    moreover have "vCreatedAt b \<noteq> vCreatedAt v"
      using noties b by (auto simp: filter_empty_conv)
    ultimately show "vCreatedAt b < vCreatedAt v" by simp
  qed
  then have rear: "filter ?P bs = []" by (auto simp: filter_empty_conv)
  have "length (filter ?P ?ys) = length (filter ?P (xs @ [v]))"
    by (metis mset_sortNewestFirst mset_filter size_mset)
  then have "length (filter ?P as) + 1 = length (filter ?P xs) + 1"
    using split rear by simp
  then have "length (filter ?P xs) \<le> length as"
    using length_filter_le[of ?P as] by simp
  with many have "k \<le> length as" by simp
  then have "take k ?ys = take k as" using split by simp
  with kept have "v \<in> set as" by (auto dest: in_set_takeD)
  with notin_as show False by simp
qed

text \<open>Whether a new entry survives its commit.\<close>

lemma commit_keeps_iff:
  assumes "v \<notin> set (versions d)"
  shows "v \<in> set (versions (addDocumentVersion now d v k)) \<longleftrightarrow>
         length (filter (\<lambda>x. vCreatedAt v \<le> vCreatedAt x) (versions d)) < k"
proof
  assume kept: "v \<in> set (versions (addDocumentVersion now d v k))"
  show "length (filter (\<lambda>x. vCreatedAt v \<le> vCreatedAt x) (versions d)) < k"
  proof (rule ccontr)
    assume "\<not> length (filter (\<lambda>x. vCreatedAt v \<le> vCreatedAt x) (versions d)) < k"
    then have "k \<le> length (filter (\<lambda>y. vCreatedAt v \<le> vCreatedAt y) (versions d))" by simp
    from discarded_if_many_newer[OF assms this] kept show False
      by (simp add: versions_addDocumentVersion)
  qed
next
  assume "length (filter (\<lambda>x. vCreatedAt v \<le> vCreatedAt x) (versions d)) < k"
  then have "length (filter (\<lambda>y. vCreatedAt v \<le> vCreatedAt y) (versions d @ [v])) \<le> k"
    by simp
  then show "v \<in> set (versions (addDocumentVersion now d v k))"
    unfolding versions_addDocumentVersion
    by (intro retained_if_few_newer) simp_all
qed

subsection \<open>The most recent entries survive a run of commits\<close>

lemma topOf_take_sort:
  "topOf k (take k (sortNewestFirst xs)) (drop k (sortNewestFirst xs)) xs"
proof -
  let ?ys = "sortNewestFirst xs"
  have "mset xs = mset (take k ?ys @ drop k ?ys)" by (simp add: mset_sortNewestFirst)
  then have "mset xs = mset (take k ?ys) + mset (drop k ?ys)" by (simp only: mset_append)
  moreover have "length (take k ?ys) = min k (length xs)"
    by (simp add: length_sortNewestFirst min.commute)
  moreover have "\<forall>d \<in> set (drop k ?ys). \<forall>r \<in> set (take k ?ys). vCreatedAt d \<le> vCreatedAt r"
    using newestFirst_split[OF newestFirst_sortNewestFirst] by blast
  ultimately show ?thesis unfolding topOf_def by blast
qed

lemma topOf_step:
  assumes "topOf k R D A"
  shows "topOf k (take k (sortNewestFirst (R @ [v])))
           (D @ drop k (sortNewestFirst (R @ [v]))) (A @ [v])"
proof -
  let ?ys = "sortNewestFirst (R @ [v])"
  let ?R' = "take k ?ys" and ?X = "drop k ?ys"
  from assms have A: "mset A = mset R + mset D" and lenR: "length R = min k (length A)"
    and DR: "\<forall>d \<in> set D. \<forall>r \<in> set R. vCreatedAt d \<le> vCreatedAt r"
    unfolding topOf_def by auto
  have "topOf k ?R' ?X (R @ [v])" by (rule topOf_take_sort)
  then have RX: "mset (R @ [v]) = mset ?R' + mset ?X"
    and XR: "\<forall>d \<in> set ?X. \<forall>r \<in> set ?R'. vCreatedAt d \<le> vCreatedAt r"
    unfolding topOf_def by auto
  have lenA: "length A = length R + length D"
    using A by (metis length_append mset_append size_mset)
  have m: "mset (A @ [v]) = mset ?R' + mset (D @ ?X)"
    using A RX by (simp add: ac_simps)
  have l: "length ?R' = min k (length (A @ [v]))"
    using lenR by (simp add: length_sortNewestFirst min_def)
  have o: "\<forall>d \<in> set (D @ ?X). \<forall>r \<in> set ?R'. vCreatedAt d \<le> vCreatedAt r"
  proof (intro ballI)
    fix d r assume d: "d \<in> set (D @ ?X)" and r: "r \<in> set ?R'"
    show "vCreatedAt d \<le> vCreatedAt r"
    proof (cases "d \<in> set ?X")
      case True with XR r show ?thesis by blast
    next
      case False
      with d have dD: "d \<in> set D" by simp
      then have "D \<noteq> []" by auto
      with lenA lenR have lenRk: "length R = k"
        by (cases D) (auto simp: min_def split: if_splits)
      have "r \<in> set ?ys" using r by (rule in_set_takeD)
      then have rin: "r \<in> set R \<or> r = v" by (auto simp: set_sortNewestFirst)
      show ?thesis
      proof (cases "r \<in> set R")
        case True with DR dD show ?thesis by blast
      next
        case False
        have "length ?X = 1" using lenRk by (simp add: length_sortNewestFirst)
        then obtain x where X: "?X = [x]" by (cases ?X) auto
        have xr: "vCreatedAt x \<le> vCreatedAt r" using XR r X by simp
        have "x \<in> set ?ys" using X by (metis in_set_dropD list.set_intros(1))
        then have xin: "x \<in> set R \<or> x = v" by (auto simp: set_sortNewestFirst)
        have "x \<in> set R"
        proof (rule ccontr)
          assume "x \<notin> set R"
          with xin have "x = v" by simp
          with RX X have "mset R = mset ?R'" by simp
          then have "set R = set ?R'" by (metis set_mset_mset)
          with r False show False by simp
        qed
        with DR dD have "vCreatedAt d \<le> vCreatedAt x" by blast
        with xr show ?thesis by simp
      qed
    qed
  qed
  show ?thesis unfolding topOf_def using m l o by blast
qed

lemma commitAll_topOf:
  assumes "topOf k (versions d) D A"
  shows "\<exists>D'. topOf k (versions (commitAll d cs k)) D' (A @ map snd cs)"
  using assms
proof (induction cs arbitrary: d D A)
  case Nil
  then show ?case by auto
next
  case (Cons c cs)
  have "topOf k (versions (addDocumentVersion (fst c) d (snd c) k))
          (D @ drop k (sortNewestFirst (versions d @ [snd c]))) (A @ [snd c])"
    unfolding versions_addDocumentVersion using Cons.prems by (rule topOf_step)
  from Cons.IH[OF this] show ?case by simp
qed

lemma topOf_mostRecentOf: "topOf k R D A \<Longrightarrow> mostRecentOf k R A"
  unfolding topOf_def mostRecentOf_def by auto

lemma commitAll_newestFirst:
  "cs \<noteq> [] \<Longrightarrow> newestFirst (versions (commitAll d cs k))"
proof (induction cs arbitrary: d)
  case Nil
  then show ?case by simp
next
  case (Cons c cs)
  show ?case
  proof (cases cs)
    case Nil
    then show ?thesis
      by (simp add: versions_addDocumentVersion newestFirst_take newestFirst_sortNewestFirst)
  next
    case (Cons a list)
    then show ?thesis using Cons.IH by simp
  qed
qed

lemma commitAll_length:
  "cs \<noteq> [] \<Longrightarrow> length (versions (commitAll d cs k)) \<le> k"
proof (induction cs arbitrary: d)
  case Nil
  then show ?case by simp
next
  case (Cons c cs)
  show ?case
  proof (cases cs)
    case Nil
    then show ?thesis by (simp add: versions_addDocumentVersion)
  next
    case (Cons a list)
    then show ?thesis using Cons.IH by simp
  qed
qed

text \<open>
  C5. After every non-empty run of commits on a document, with any cap \<open>k\<close> (the
  callers all use the default 50), the ledger holds at most \<open>k\<close> entries, is ordered
  newest first by \<open>createdAt\<close>, and holds the \<open>k\<close> most recent of the entries the
  document started with and the ones committed.
\<close>

theorem version_cap:
  assumes "cs \<noteq> []"
  shows "length (versions (commitAll d cs k)) \<le> k \<and>
         newestFirst (versions (commitAll d cs k)) \<and>
         mostRecentOf k (versions (commitAll d cs k)) (versions d @ map snd cs)"
proof -
  obtain c cs' where cs: "cs = c # cs'" using assms by (cases cs) auto
  have "topOf k (versions (addDocumentVersion (fst c) d (snd c) k))
          (drop k (sortNewestFirst (versions d @ [snd c]))) (versions d @ [snd c])"
    unfolding versions_addDocumentVersion by (rule topOf_take_sort)
  from commitAll_topOf[OF this, of cs'] obtain D' where
    "topOf k (versions (commitAll d cs k)) D' (versions d @ map snd cs)"
    using cs by auto
  then have "mostRecentOf k (versions (commitAll d cs k)) (versions d @ map snd cs)"
    by (rule topOf_mostRecentOf)
  with commitAll_length[OF assms] commitAll_newestFirst[OF assms] show ?thesis by blast
qed

theorem version_cap_witness:
  "exampleCommits \<noteq> [] \<and>
   length (versions (commitAll fullDocument exampleCommits defaultMaxVersions))
     \<le> defaultMaxVersions \<and>
   newestFirst (versions (commitAll fullDocument exampleCommits defaultMaxVersions)) \<and>
   mostRecentOf defaultMaxVersions
     (versions (commitAll fullDocument exampleCommits defaultMaxVersions))
     (versions fullDocument @ map snd exampleCommits)"
proof -
  have h: "exampleCommits \<noteq> []" by (simp add: exampleCommits_def)
  show ?thesis
    using h version_cap [OF h, of fullDocument defaultMaxVersions] by simp
qed

text \<open>
  C6, as stated, fails: with the default cap, a full ledger and a snapshot whose
  \<open>createdAt\<close> equals that of the oldest entry, the stable sort puts the snapshot last
  and the truncation drops it.
\<close>

theorem commit_discards_snapshot_counterexample:
  "1 \<le> defaultMaxVersions \<and>
   length (versions fullDocument) = defaultMaxVersions \<and>
   vCreatedAt tiedSnapshot = vCreatedAt (numbered 0) \<and>
   numbered 0 \<in> set (versions fullDocument) \<and>
   tiedSnapshot \<notin> set (versions (addDocumentVersion 2000 fullDocument tiedSnapshot
                                    defaultMaxVersions))"
  by code_simp

text \<open>
  C6, amended. The snapshot passed to a commit is in the ledger afterwards whenever fewer
  than \<open>maxVersions\<close> of the entries already there are at least as new as it is.
  For a snapshot that is not in the ledger already this is the only case: it is in the
  ledger afterwards exactly when fewer than \<open>maxVersions\<close> of the entries already
  there are at least as new as it is, and is discarded by the commit otherwise.
\<close>

theorem commit_keeps_snapshot:
  "(length (filter (\<lambda>x. vCreatedAt v \<le> vCreatedAt x) (versions d)) < k \<longrightarrow>
      v \<in> set (versions (addDocumentVersion now d v k))) \<and>
   (v \<notin> set (versions d) \<longrightarrow>
      (v \<in> set (versions (addDocumentVersion now d v k)) \<longleftrightarrow>
       length (filter (\<lambda>x. vCreatedAt v \<le> vCreatedAt x) (versions d)) < k))"
proof (intro conjI impI)
  assume "length (filter (\<lambda>x. vCreatedAt v \<le> vCreatedAt x) (versions d)) < k"
  then have "length (filter (\<lambda>y. vCreatedAt v \<le> vCreatedAt y) (versions d @ [v])) \<le> k"
    by simp
  then show "v \<in> set (versions (addDocumentVersion now d v k))"
    unfolding versions_addDocumentVersion
    by (intro retained_if_few_newer) simp_all
next
  assume "v \<notin> set (versions d)"
  then show "v \<in> set (versions (addDocumentVersion now d v k)) \<longleftrightarrow>
      length (filter (\<lambda>x. vCreatedAt v \<le> vCreatedAt x) (versions d)) < k"
    by (rule commit_keeps_iff)
qed

theorem commit_keeps_snapshot_witness:
  "length (filter (\<lambda>x. vCreatedAt freshSnapshot \<le> vCreatedAt x) (versions fullDocument))
     < defaultMaxVersions \<and>
   freshSnapshot \<notin> set (versions fullDocument) \<and>
   freshSnapshot \<in> set (versions (addDocumentVersion 2000 fullDocument freshSnapshot
                                   defaultMaxVersions)) \<and>
   tiedSnapshot \<notin> set (versions fullDocument) \<and>
   \<not> length (filter (\<lambda>x. vCreatedAt tiedSnapshot \<le> vCreatedAt x) (versions fullDocument))
       < defaultMaxVersions \<and>
   tiedSnapshot \<notin> set (versions (addDocumentVersion 2000 fullDocument tiedSnapshot
                                    defaultMaxVersions))"
proof -
  have h1: "length (filter (\<lambda>x. vCreatedAt freshSnapshot \<le> vCreatedAt x)
              (versions fullDocument)) < defaultMaxVersions"
    by code_simp
  have h2: "freshSnapshot \<notin> set (versions fullDocument)"
    by code_simp
  have h3: "tiedSnapshot \<notin> set (versions fullDocument)"
    by code_simp
  have h4: "\<not> length (filter (\<lambda>x. vCreatedAt tiedSnapshot \<le> vCreatedAt x)
                (versions fullDocument)) < defaultMaxVersions"
    by code_simp
  show ?thesis
    using h1 h2 h3 h4
      commit_keeps_snapshot [of freshSnapshot fullDocument defaultMaxVersions 2000]
      commit_keeps_snapshot [of tiedSnapshot fullDocument defaultMaxVersions 2000]
    by blast
qed

subsection \<open>The document-change handler\<close>

lemma versionedDocument_same:
  "content' = content d \<Longrightarrow> versionedDocument env d user content' = d"
  by (simp add: versionedDocument_def)

text \<open>
  C2, as stated, fails: Alice sends the content the document already has; the document is
  written again with a new \<open>updatedAt\<close>, and \<open>document-updated\<close> goes to the room,
  where Bob receives it.
\<close>

theorem same_content_not_silent_counterexample:
  "loadDocument exampleState ''d1'' = Some notesDoc \<and>
   content notesDoc = ''<p>hi</p>'' \<and>
   updatedAt notesDoc = 1000 \<and>
   map_option updatedAt
     (documentFiles (fst (documentChange changeEnv exampleState ''sA'' alice ''d1'' ''<p>hi</p>''))
        ''d1'') = Some 5002 \<and>
   snd (documentChange changeEnv exampleState ''sA'' alice ''d1'' ''<p>hi</p>'') =
     [(ToRoom ''d1'', DocumentUpdated ''<p>hi</p>'' ''Alice'' 5002)] \<and>
   ''sB'' \<in> recipients (adapterRooms exampleState) (ToRoom ''d1'')"
  by (simp add: documentChange_def versionedDocument_def loadDocument_def saveDocument_def
      exampleState_def notesDoc_def changeEnv_def alice_def)

text \<open>
  C2, amended. When the supplied content equals the stored content, no version is
  committed: the document is written back with its versions list and content as they
  were. It is still written, with \<open>updatedAt\<close> set to the time of the write, and
  \<open>document-updated\<close> is still broadcast to the room.
\<close>

theorem same_content_commits_no_version:
  assumes "loadDocument st documentId = Some d"
    and "content' = content d"
  shows "documentChange env st sid user documentId content' =
           (st\<lparr>documentFiles := (documentFiles st)(docId d \<mapsto> d\<lparr>updatedAt := changeSaved env\<rparr>)\<rparr>,
            [(ToRoom documentId,
              DocumentUpdated (content d) (userName user) (changeEmitted env))])"
  using assms
  by (simp add: documentChange_def versionedDocument_same saveDocument_def)

theorem same_content_commits_no_version_witness:
  "loadDocument exampleState ''d1'' = Some notesDoc \<and>
   ''<p>hi</p>'' = content notesDoc \<and>
   documentChange changeEnv exampleState ''sA'' alice ''d1'' ''<p>hi</p>'' =
     (exampleState\<lparr>documentFiles :=
        (documentFiles exampleState)(docId notesDoc \<mapsto> notesDoc\<lparr>updatedAt := changeSaved changeEnv\<rparr>)\<rparr>,
      [(ToRoom ''d1'',
        DocumentUpdated (content notesDoc) (userName alice) (changeEmitted changeEnv))])"
proof -
  have h1: "loadDocument exampleState ''d1'' = Some notesDoc"
    by (simp add: loadDocument_def exampleState_def)
  have h2: "''<p>hi</p>'' = content notesDoc"
    by (simp add: notesDoc_def)
  show ?thesis
    using h1 h2 same_content_commits_no_version [OF h1 h2, of changeEnv "''sA''" alice]
    by simp
qed

text \<open>
  The handler of server.ts reaches every socket in the document's room, the sender
  included when it has joined.
\<close>

lemma documentChange_reaches_room:
  assumes "loadDocument st documentId = Some d"
    and "s \<in> adapterRooms st documentId"
  shows "receives (adapterRooms (fst (documentChange env st sid user documentId content')))
           (snd (documentChange env st sid user documentId content')) s
           (DocumentUpdated content' (userName user) (changeEmitted env))"
  using assms
  by (simp add: documentChange_def receives_def saveDocument_def Let_def)

text \<open>
  C9, on the compiled server.js: Alice and Bob are in the room of document \<open>d1\<close>, Alice
  changes the content; the one emit is \<open>socket.to(documentId)\<close>, which reaches Bob and
  not Alice.
\<close>

theorem compiled_change_skips_author:
  "''sA'' \<in> adapterRooms exampleState ''d1'' \<and>
   snd (documentChangeCompiled changeEnv exampleState ''sA'' alice ''d1'' ''<p>hello</p>'') =
     [(ToRoomExcept ''sA'' ''d1'', DocumentUpdated ''<p>hello</p>'' ''Alice'' 5002)] \<and>
   recipients (adapterRooms exampleState) (ToRoomExcept ''sA'' ''d1'') = {''sB''}"
  by (auto simp add: documentChangeCompiled_def loadDocument_def exampleState_def
      changeEnv_def alice_def Let_def)

subsection \<open>Reading documents and versions\<close>

text \<open>
  C10. \<open>GET /api/documents/:id\<close> looks the document up in \<open>documentsCache\<close> only: a
  document that is on disk and not in the cache is answered with 404, also to its owner.
\<close>

theorem uncached_document_not_found:
  assumes "documentFiles st id' = Some d"
    and "ownerId d = userId user"
    and "documentsCache st id' = None"
  shows "getDocument st user id' = (404, ErrorBody ''Document not found'')"
  using assms(3) by (simp add: getDocument_def)

theorem uncached_document_not_found_witness:
  "documentFiles exampleState ''d1'' = Some notesDoc \<and>
   ownerId notesDoc = userId alice \<and>
   documentsCache exampleState ''d1'' = None \<and>
   getDocument exampleState alice ''d1'' = (404, ErrorBody ''Document not found'')"
proof -
  have h1: "documentFiles exampleState ''d1'' = Some notesDoc"
    by (simp add: exampleState_def)
  have h2: "ownerId notesDoc = userId alice"
    by (simp add: notesDoc_def alice_def)
  have h3: "documentsCache exampleState ''d1'' = None"
    by (simp add: exampleState_def)
  show ?thesis
    using h1 h2 h3 uncached_document_not_found [OF h1 h2 h3] by simp
qed

text \<open>
  C4. The snapshot policy tags its versions \<open>Auto-snapshot\<close>, with a hyphen; the read
  endpoints test for \<open>Auto snapshot\<close>, with a space. After Alice's first edit of
  ``Notes'' the ledger holds the policy's snapshot, the manual save and the initial
  version, and the listing reports \<open>isAutoSnapshot = false\<close> for all three.
\<close>

theorem auto_snapshot_reported_false:
  "map (\<lambda>view. (changeDescription (viewVersion view), isAutoSnapshot view))
     (viewsOf (getVersions
        (fst (documentChange changeEnv exampleState ''sA'' alice ''d1'' ''<p>hello</p>''))
        ''d1'')) =
   [(Some ''Auto-snapshot'', Some False),
    (Some ''Manual save'', Some False),
    (Some ''Initial version'', Some False)]"
  by (simp add: getVersions_def versionView_def documentChange_def versionedDocument_def
      createAutoSnapshot_def shouldCreateSnapshot_def lastSnapshot_def autoSnapshotBy_def
      addDocumentVersion_def
      sortNewestFirst_def createDocumentVersion_def defaultMaxVersions_def loadDocument_def
      saveDocument_def exampleState_def notesDoc_def initialVersion_def changeEnv_def alice_def
      Let_def)

lemma policy_snapshot_never_reported:
  "isAutoSnapshot (versionView
     (createDocumentVersion uuid now d c a n (Some ''Auto-snapshot''))) = Some False"
  by (simp add: versionView_def createDocumentVersion_def)

subsection \<open>Access checks\<close>

lemma docId_createAutoSnapshot:
  "docId (createAutoSnapshot now uuid created committed d a n) = docId d"
  by (simp add: createAutoSnapshot_def docId_addDocumentVersion)

lemma docId_versionedDocument: "docId (versionedDocument env d user content') = docId d"
  by (simp add: versionedDocument_def docId_createAutoSnapshot docId_addDocumentVersion Let_def)

text \<open>
  C3. Mallory is neither owner nor collaborator of ``Notes''. Her \<open>document-change\<close>
  is not refused: the handler makes no access check, writes her content to disk and
  broadcasts it to the room. The version listing and the single-version read are not
  refused either: both routes are registered without authentication, make no access check
  and answer 200 with the content.
\<close>

theorem stranger_not_refused:
  "loadDocument exampleState ''d1'' = Some notesDoc \<and>
   accessDenied notesDoc mallory \<and>
   map_option content
     (documentFiles (fst (documentChange changeEnv exampleState ''sM'' mallory ''d1'' ''<p>x</p>''))
        ''d1'') = Some ''<p>x</p>'' \<and>
   snd (documentChange changeEnv exampleState ''sM'' mallory ''d1'' ''<p>x</p>'') =
     [(ToRoom ''d1'', DocumentUpdated ''<p>x</p>'' ''Mallory'' 5002)] \<and>
   getVersions exampleState ''d1'' = (200, VersionsBody ''d1'' [versionView initialVersion]) \<and>
   getVersion exampleState ''d1'' ''v0'' = (200, VersionBody (versionView initialVersion))"
  by (simp add: documentChange_def getVersions_def getVersion_def loadDocument_def
      saveDocument_def accessDenied_def docId_versionedDocument exampleState_def notesDoc_def
      initialVersion_def changeEnv_def mallory_def Let_def)

text \<open>
  The checks that are there. For a user who is neither owner nor collaborator of a stored
  document, \<open>join-document\<close> emits \<open>Access denied\<close> to the joining socket alone and
  leaves the state as it was, and \<open>GET /api/documents/:id\<close> answers 403 when the
  document is in the cache. The version reads answer every caller. The owner is never
  refused by the owner check of the collaborator endpoints.
\<close>

lemma access_checks:
  assumes "loadDocument st id' = Some d"
  shows "(accessDenied d stranger \<longrightarrow>
            joinDocument st sid stranger id' =
              (st, [(ToSocket sid, ErrorEvent ''Access denied'')])) \<and>
         (documentsCache st id' = Some c \<and> accessDenied c stranger \<longrightarrow>
            getDocument st stranger id' = (403, ErrorBody ''Access denied'')) \<and>
         getVersions st id' = (200, VersionsBody id' (map versionView (versions d))) \<and>
         (find (\<lambda>v. vId v = versionId) (versions d) = Some version \<longrightarrow>
            getVersion st id' versionId = (200, VersionBody (versionView version))) \<and>
         (ownerId d = userId owner \<longrightarrow>
            fst (snd (addCollaborator updated saved st owner id' email)) \<noteq> 403 \<and>
            fst (snd (removeCollaborator updated saved st owner id' collaboratorId)) \<noteq> 403)"
proof (intro conjI impI)
  assume "accessDenied d stranger"
  then show "joinDocument st sid stranger id' =
      (st, [(ToSocket sid, ErrorEvent ''Access denied'')])"
    using assms by (simp add: joinDocument_def)
next
  assume "documentsCache st id' = Some c \<and> accessDenied c stranger"
  then show "getDocument st stranger id' = (403, ErrorBody ''Access denied'')"
    by (simp add: getDocument_def)
next
  show "getVersions st id' = (200, VersionsBody id' (map versionView (versions d)))"
    using assms by (simp add: getVersions_def)
next
  assume "find (\<lambda>v. vId v = versionId) (versions d) = Some version"
  then show "getVersion st id' versionId = (200, VersionBody (versionView version))"
    using assms by (simp add: getVersion_def)
next
  assume "ownerId d = userId owner"
  then show "fst (snd (addCollaborator updated saved st owner id' email)) \<noteq> 403"
    using assms
    by (simp add: addCollaborator_def Let_def split: option.split)
next
  assume "ownerId d = userId owner"
  then show "fst (snd (removeCollaborator updated saved st owner id' collaboratorId)) \<noteq> 403"
    using assms
    by (simp add: removeCollaborator_def Let_def)
qed

lemma access_checks_example:
  "loadDocument cachedState ''d1'' = Some notesDoc \<and>
   accessDenied notesDoc mallory \<and>
   joinDocument cachedState ''sM'' mallory ''d1'' =
     (cachedState, [(ToSocket ''sM'', ErrorEvent ''Access denied'')]) \<and>
   documentsCache cachedState ''d1'' = Some notesDoc \<and>
   getDocument cachedState mallory ''d1'' = (403, ErrorBody ''Access denied'') \<and>
   getVersions cachedState ''d1'' = (200, VersionsBody ''d1'' (map versionView (versions notesDoc))) \<and>
   find (\<lambda>v. vId v = ''v0'') (versions notesDoc) = Some initialVersion \<and>
   getVersion cachedState ''d1'' ''v0'' = (200, VersionBody (versionView initialVersion)) \<and>
   ownerId notesDoc = userId alice \<and>
   fst (snd (addCollaborator 7000 7001 cachedState alice ''d1'' ''mallory@example.com'')) \<noteq> 403 \<and>
   fst (snd (removeCollaborator 7000 7001 cachedState alice ''d1'' ''B'')) \<noteq> 403"
proof -
  have h1: "loadDocument cachedState ''d1'' = Some notesDoc"
    by (simp add: loadDocument_def cachedState_def exampleState_def)
  have h2: "accessDenied notesDoc mallory"
    by (simp add: accessDenied_def notesDoc_def mallory_def)
  have h3: "documentsCache cachedState ''d1'' = Some notesDoc"
    by (simp add: cachedState_def)
  have h4: "find (\<lambda>v. vId v = ''v0'') (versions notesDoc) = Some initialVersion"
    by (simp add: notesDoc_def initialVersion_def)
  have h5: "ownerId notesDoc = userId alice"
    by (simp add: notesDoc_def alice_def)
  show ?thesis
    using h1 h2 h3 h4 h5
      access_checks [OF h1, of mallory "''sM''" notesDoc "''v0''" initialVersion alice
        7000 7001 "''mallory@example.com''" "''B''"]
    by simp
qed

subsection \<open>Restoring a version\<close>

lemma length_versions_addDocumentVersion:
  "length (versions (addDocumentVersion now d v k)) = min k (length (versions d) + 1)"
  by (simp add: versions_addDocumentVersion length_sortNewestFirst min.commute)

text \<open>
  C8, as stated, fails: the ledger of the full document holds fifty entries, none older
  than the version the restore builds. Alice restores the oldest entry; the answer is 200,
  the content is replaced, and the ledger on disk is the one from before: the version
  holding the content from before the restore was cut off by the cap, and that content is
  in no version.
\<close>

theorem restore_loses_content_counterexample:
  "loadDocument fullState ''d1'' = Some fullDocument \<and>
   \<not> accessDenied fullDocument alice \<and>
   find (\<lambda>v. vId v = ''v'') (versions fullDocument) = Some (numbered 0) \<and>
   content fullDocument = ''<p>hi</p>'' \<and>
   fst (snd (snd (restoreVersion staleRestoreEnv fullState alice ''d1'' ''v''))) = 200 \<and>
   map_option content
     (documentFiles (fst (restoreVersion staleRestoreEnv fullState alice ''d1'' ''v'')) ''d1'') =
     Some ''<p>draft</p>'' \<and>
   map_option versions
     (documentFiles (fst (restoreVersion staleRestoreEnv fullState alice ''d1'' ''v'')) ''d1'') =
     Some (versions fullDocument) \<and>
   filter (\<lambda>v. vContent v = ''<p>hi</p>'') (versions fullDocument) = []"
  by code_simp

text \<open>
  C8, amended. Restoring, for a user with write access to a stored document: when the
  target version is found, a version holding the content from before the restore is
  passed to the commit, the content becomes the target's, the result is written to disk,
  and the ledger has one entry more, or \<open>maxVersions\<close> entries if that is less. The
  committed version is in the ledger whenever fewer than \<open>maxVersions\<close> of the stored
  entries are at least as new as it is; when it is not among the stored entries already,
  it is in the ledger exactly then, and is cut off by the cap otherwise. When the target
  version is not found, the answer is 404 and the state is as it was.
\<close>

theorem restore_safety:
  assumes "loadDocument st id' = Some d"
    and "\<not> accessDenied d user"
  shows "(find (\<lambda>v. vId v = versionId) (versions d) = Some version \<longrightarrow>
            documentFiles (fst (restoreVersion env st user id' versionId)) (docId d) =
              Some ((addDocumentVersion (restoreCommitted env) d
                       (currentVersion env d user version) defaultMaxVersions)
                    \<lparr>content := vContent version, updatedAt := restoreSaved env\<rparr>) \<and>
            vContent (currentVersion env d user version) = content d \<and>
            length (versions (addDocumentVersion (restoreCommitted env) d
                       (currentVersion env d user version) defaultMaxVersions)) =
              min defaultMaxVersions (length (versions d) + 1) \<and>
            (length (filter (\<lambda>x. restoreCreated env \<le> vCreatedAt x) (versions d))
               < defaultMaxVersions \<longrightarrow>
             currentVersion env d user version
               \<in> set (versions (addDocumentVersion (restoreCommitted env) d
                       (currentVersion env d user version) defaultMaxVersions))) \<and>
            (currentVersion env d user version \<notin> set (versions d) \<longrightarrow>
               (currentVersion env d user version
                  \<in> set (versions (addDocumentVersion (restoreCommitted env) d
                          (currentVersion env d user version) defaultMaxVersions)) \<longleftrightarrow>
                length (filter (\<lambda>x. restoreCreated env \<le> vCreatedAt x) (versions d))
                  < defaultMaxVersions)) \<and>
            fst (snd (snd (restoreVersion env st user id' versionId))) = 200) \<and>
         (find (\<lambda>v. vId v = missingId) (versions d) = None \<longrightarrow>
            restoreVersion env st user id' missingId =
              (st, [], (404, ErrorBody ''Version not found'')))"
proof (intro conjI impI)
  assume found: "find (\<lambda>v. vId v = versionId) (versions d) = Some version"
  show "documentFiles (fst (restoreVersion env st user id' versionId)) (docId d) =
      Some ((addDocumentVersion (restoreCommitted env) d
               (currentVersion env d user version) defaultMaxVersions)
            \<lparr>content := vContent version, updatedAt := restoreSaved env\<rparr>)"
    using assms found
    by (simp add: restoreVersion_def currentVersion_def saveDocument_def Let_def
        docId_addDocumentVersion)
  show "fst (snd (snd (restoreVersion env st user id' versionId))) = 200"
    using assms found by (simp add: restoreVersion_def Let_def)
next
  show "vContent (currentVersion env d user version) = content d"
    by (simp add: currentVersion_def createDocumentVersion_def)
next
  show "length (versions (addDocumentVersion (restoreCommitted env) d
           (currentVersion env d user version) defaultMaxVersions)) =
        min defaultMaxVersions (length (versions d) + 1)"
    by (rule length_versions_addDocumentVersion)
next
  assume "length (filter (\<lambda>x. restoreCreated env \<le> vCreatedAt x) (versions d))
            < defaultMaxVersions"
  then have "length (filter (\<lambda>x. vCreatedAt (currentVersion env d user version) \<le> vCreatedAt x)
                 (versions d)) < defaultMaxVersions"
    by (simp add: currentVersion_def createDocumentVersion_def)
  then show "currentVersion env d user version
      \<in> set (versions (addDocumentVersion (restoreCommitted env) d
               (currentVersion env d user version) defaultMaxVersions))"
    unfolding versions_addDocumentVersion
    by (intro retained_if_few_newer) simp_all
next
  assume "currentVersion env d user version \<notin> set (versions d)"
  then have "currentVersion env d user version
        \<in> set (versions (addDocumentVersion (restoreCommitted env) d
                (currentVersion env d user version) defaultMaxVersions)) \<longleftrightarrow>
      length (filter (\<lambda>x. vCreatedAt (currentVersion env d user version) \<le> vCreatedAt x)
                (versions d)) < defaultMaxVersions"
    by (rule commit_keeps_iff)
  then show "currentVersion env d user version
        \<in> set (versions (addDocumentVersion (restoreCommitted env) d
                (currentVersion env d user version) defaultMaxVersions)) \<longleftrightarrow>
      length (filter (\<lambda>x. restoreCreated env \<le> vCreatedAt x) (versions d))
        < defaultMaxVersions"
    by (simp add: currentVersion_def createDocumentVersion_def)
next
  assume "find (\<lambda>v. vId v = missingId) (versions d) = None"
  then show "restoreVersion env st user id' missingId =
      (st, [], (404, ErrorBody ''Version not found''))"
    using assms by (simp add: restoreVersion_def)
qed

theorem restore_safety_witness:
  "loadDocument editedState ''d1'' = Some editedDoc \<and>
   \<not> accessDenied editedDoc bob \<and>
   find (\<lambda>v. vId v = ''v0'') (versions editedDoc) = Some initialVersion \<and>
   documentFiles (fst (restoreVersion restoreEnv editedState bob ''d1'' ''v0'')) (docId editedDoc) =
     Some ((addDocumentVersion (restoreCommitted restoreEnv) editedDoc
              (currentVersion restoreEnv editedDoc bob initialVersion) defaultMaxVersions)
           \<lparr>content := vContent initialVersion, updatedAt := restoreSaved restoreEnv\<rparr>) \<and>
   vContent (currentVersion restoreEnv editedDoc bob initialVersion) = content editedDoc \<and>
   length (versions (addDocumentVersion (restoreCommitted restoreEnv) editedDoc
              (currentVersion restoreEnv editedDoc bob initialVersion) defaultMaxVersions)) =
     min defaultMaxVersions (length (versions editedDoc) + 1) \<and>
   length (filter (\<lambda>x. restoreCreated restoreEnv \<le> vCreatedAt x) (versions editedDoc))
     < defaultMaxVersions \<and>
   currentVersion restoreEnv editedDoc bob initialVersion \<notin> set (versions editedDoc) \<and>
   currentVersion restoreEnv editedDoc bob initialVersion
     \<in> set (versions (addDocumentVersion (restoreCommitted restoreEnv) editedDoc
              (currentVersion restoreEnv editedDoc bob initialVersion) defaultMaxVersions)) \<and>
   fst (snd (snd (restoreVersion restoreEnv editedState bob ''d1'' ''v0''))) = 200 \<and>
   find (\<lambda>v. vId v = ''zz'') (versions editedDoc) = None \<and>
   restoreVersion restoreEnv editedState bob ''d1'' ''zz'' =
     (editedState, [], (404, ErrorBody ''Version not found''))"
proof -
  have h1: "loadDocument editedState ''d1'' = Some editedDoc"
    by (simp add: loadDocument_def editedState_def)
  have h2: "\<not> accessDenied editedDoc bob"
    by (simp add: accessDenied_def editedDoc_def notesDoc_def bob_def)
  have h3: "find (\<lambda>v. vId v = ''v0'') (versions editedDoc) = Some initialVersion"
    by (simp add: editedDoc_def earlierSave_def initialVersion_def)
  have h4: "length (filter (\<lambda>x. restoreCreated restoreEnv \<le> vCreatedAt x) (versions editedDoc))
              < defaultMaxVersions"
    by (simp add: editedDoc_def earlierSave_def initialVersion_def restoreEnv_def
        defaultMaxVersions_def)
  have h5: "find (\<lambda>v. vId v = ''zz'') (versions editedDoc) = None"
    by (simp add: editedDoc_def earlierSave_def initialVersion_def)
  have h6: "currentVersion restoreEnv editedDoc bob initialVersion \<notin> set (versions editedDoc)"
    by (simp add: currentVersion_def createDocumentVersion_def editedDoc_def earlierSave_def
        initialVersion_def restoreEnv_def)
  show ?thesis
    using h1 h2 h3 h4 h5 h6
      restore_safety [OF h1 h2, of "''v0''" initialVersion restoreEnv "''zz''"]
    by blast
qed

text \<open>The restore of the example, evaluated: content and ledger on disk afterwards.\<close>

lemma restore_example:
  "map_option (\<lambda>d. (content d, map vContent (versions d)))
     (documentFiles (fst (restoreVersion restoreEnv editedState bob ''d1'' ''v0'')) ''d1'') =
   Some (''<p>hi</p>'', [''<p>hello</p>'', ''<p>hello</p>'', ''<p>hi</p>''])"
  by (simp add: restoreVersion_def loadDocument_def saveDocument_def accessDenied_def
      addDocumentVersion_def sortNewestFirst_def createDocumentVersion_def
      defaultMaxVersions_def editedState_def editedDoc_def notesDoc_def earlierSave_def
      initialVersion_def restoreEnv_def bob_def exampleState_def Let_def)

subsection \<open>What a content-changing edit commits\<close>

lemma content_afterManualSave: "content (afterManualSave env d user content') = content d"
  by (simp add: afterManualSave_def content_addDocumentVersion)









subsection \<open>The snapshot cool-down\<close>



















text \<open>The two runs of the example, evaluated: the tags of the ledger on disk afterwards.\<close>

lemma cooldown_example_within:
  "map_option (\<lambda>d. map changeDescription (versions d))
     (documentFiles
        (fst (documentChange soonEnv
                (fst (documentChange changeEnv exampleState ''sA'' alice ''d1'' ''<p>hello</p>''))
                ''sA'' alice ''d1'' ''<p>hello!</p>''))
        ''d1'') =
   Some [Some ''Manual save'', Some ''Auto-snapshot'', Some ''Manual save'',
         Some ''Initial version'']"
  by (simp add: documentChange_def versionedDocument_def createAutoSnapshot_def
      shouldCreateSnapshot_def lastSnapshot_def autoSnapshotBy_def addDocumentVersion_def
      sortNewestFirst_def createDocumentVersion_def defaultMaxVersions_def loadDocument_def
      saveDocument_def exampleState_def notesDoc_def initialVersion_def changeEnv_def
      soonEnv_def alice_def Let_def)

lemma cooldown_example_apart:
  "map_option (\<lambda>d. map changeDescription (versions d))
     (documentFiles
        (fst (documentChange lateEnv
                (fst (documentChange changeEnv exampleState ''sA'' alice ''d1'' ''<p>hello</p>''))
                ''sA'' alice ''d1'' ''<p>hello!</p>''))
        ''d1'') =
   Some [Some ''Auto-snapshot'', Some ''Manual save'', Some ''Auto-snapshot'',
         Some ''Manual save'', Some ''Initial version'']"
  by (simp add: documentChange_def versionedDocument_def createAutoSnapshot_def
      shouldCreateSnapshot_def lastSnapshot_def autoSnapshotBy_def addDocumentVersion_def
      sortNewestFirst_def createDocumentVersion_def defaultMaxVersions_def loadDocument_def
      saveDocument_def exampleState_def notesDoc_def initialVersion_def changeEnv_def
      lateEnv_def alice_def Let_def)


end
